theory Spec2Isabelle
  imports Main
begin

section \<open>The query compiler of query/compile.go\<close>

subsection \<open>Expressions, sources and statements (package influxql)\<close>

text \<open>
  Modelled from the spec: the declarations of package influxql are not part of the
  compiler's file. The statement carries an ordered sequence of sources and an ordered
  sequence of fields; an expression is a variable reference, a function call, a binary
  operator or a literal, and any other shape (here a parenthesised expression and the
  wildcard) is only ever rejected by the compiler.
\<close>

datatype literal = BooleanLiteral bool | IntegerLiteral int | StringLiteral string | NilLiteral

datatype token = ADD | SUB | MUL | DIV | MOD

datatype expr =
    VarRef string
  | Call string "expr list"
  | BinaryExpr token expr expr
  | Literal literal
  | ParenExpr expr
  | Wildcard

datatype source = Measurement string | SubQuery

record Field =
  Expr :: expr
  Alias :: string

record SelectStatement =
  Fields :: "Field list"
  Sources :: "source list"

text \<open>The type assertions of the source: \<open>e.(influxql.Literal)\<close> and friends.\<close>

fun is_Literal :: "expr \<Rightarrow> bool" where
  "is_Literal (Literal l) = True"
| "is_Literal e = False"

fun is_distinct_Call :: "expr \<Rightarrow> bool" where
  "is_distinct_Call (Call n as) = (n = ''distinct'')"
| "is_distinct_Call e = False"

fun is_time :: "expr \<Rightarrow> bool" where
  "is_time (VarRef v) = (v = ''time'')"
| "is_time e = False"

fun is_VarRef :: "expr \<Rightarrow> bool" where
  "is_VarRef (VarRef v) = True"
| "is_VarRef e = False"

subsection \<open>Errors\<close>

text \<open>
  An error returned as the second result is \<open>Error\<close> with its message; the
  \<open>panic("unimplemented")\<close> of the source loops is \<open>Panic\<close>: it is not an error value
  but it is an outcome of the call all the same.
\<close>

datatype error = Error string | Panic string

text \<open>The decimal rendering of \<open>%d\<close> for a non-negative count.\<close>

fun string_of_nat :: "nat \<Rightarrow> string" where
  "string_of_nat n =
     (if n < 10 then [''0123456789'' ! n]
      else string_of_nat (n div 10) @ [''0123456789'' ! (n mod 10)])"

declare string_of_nat.simps [simp del]

subsection \<open>The plan graph: nodes and the two ends of an edge\<close>

text \<open>
  Modelled from the spec: the graph primitives (NewEdge, AddEdge, Merge.AddInput,
  OutputEdge.Insert, AuxiliaryFields.Iterator, Plan.AddTarget) are declared in other
  files of the package. An edge is a linked pair of ends: the input end names the node
  that writes into the edge, the output end names the node that reads from it. Pointers
  are indices into the heap; the shared AuxiliaryFields node lives in the compiled
  statement itself, so a pointer to it is a constant.
\<close>

datatype node_ptr = NodePtr nat | AuxiliaryFieldsPtr

record InputEdge =
  ie_Node :: node_ptr
  ie_Output :: nat

record OutputEdge =
  oe_Node :: "node_ptr option"
  oe_Input :: nat

datatype node =
    IteratorCreatorNode "string option" string "nat option"
  | MergeNode "nat list" "nat option"
  | FunctionCallNode string "nat option" "nat option"
  | BinaryExprNode nat nat token "nat option"

record heap =
  nodes :: "node list"
  inputEdges :: "InputEdge list"
  outputEdges :: "OutputEdge list"

definition empty_heap :: heap where
  "empty_heap = \<lparr>nodes = [], inputEdges = [], outputEdges = []\<rparr>"

definition new_node :: "node \<Rightarrow> heap \<Rightarrow> nat \<times> heap" where
  "new_node n h = (length (nodes h), h\<lparr>nodes := nodes h @ [n]\<rparr>)"

definition update_node :: "nat \<Rightarrow> (node \<Rightarrow> node) \<Rightarrow> heap \<Rightarrow> heap" where
  "update_node p f h =
     (if p < length (nodes h) then h\<lparr>nodes := (nodes h)[p := f (nodes h ! p)]\<rparr> else h)"

fun set_Output :: "nat \<Rightarrow> node \<Rightarrow> node" where
  "set_Output e (IteratorCreatorNode x m out) = IteratorCreatorNode x m (Some e)"
| "set_Output e (MergeNode ins out) = MergeNode ins (Some e)"
| "set_Output e (FunctionCallNode n i out) = FunctionCallNode n i (Some e)"
| "set_Output e (BinaryExprNode l r op out) = BinaryExprNode l r op (Some e)"

fun set_Input :: "nat \<Rightarrow> node \<Rightarrow> node" where
  "set_Input e (FunctionCallNode n i out) = FunctionCallNode n (Some e) out"
| "set_Input e (MergeNode ins out) = MergeNode (ins @ [e]) out"
| "set_Input e n = n"

text \<open>
  Modelled from the spec: \<open>NewEdge\<close> is declared in another file of the package.
  \<open>NewEdge node\<close> yields a linked input/output pair of a freshly allocated edge that
  \<open>node\<close> writes and nobody reads yet; the result is (input end, output end, heap).
\<close>

definition NewEdge :: "node_ptr \<Rightarrow> heap \<Rightarrow> nat \<times> nat \<times> heap" where
  "NewEdge n h =
     (let i = length (inputEdges h); out = length (outputEdges h)
      in (i, out,
          h\<lparr>inputEdges := inputEdges h @ [\<lparr>ie_Node = n, ie_Output = out\<rparr>],
            outputEdges := outputEdges h @ [\<lparr>oe_Node = None, oe_Input = i\<rparr>]\<rparr>))"

text \<open>
  Modelled from the spec: \<open>AddEdge\<close> is declared in another file of the package.
  \<open>AddEdge from to\<close> creates and wires a pair between two nodes: a fresh edge written
  by \<open>from\<close> and read by \<open>to\<close>.
\<close>

definition AddEdge :: "node_ptr \<Rightarrow> node_ptr \<Rightarrow> heap \<Rightarrow> nat \<times> nat \<times> heap" where
  "AddEdge from to h =
     (let i = length (inputEdges h); out = length (outputEdges h)
      in (i, out,
          h\<lparr>inputEdges := inputEdges h @ [\<lparr>ie_Node = from, ie_Output = out\<rparr>],
            outputEdges := outputEdges h @ [\<lparr>oe_Node = Some to, oe_Input = i\<rparr>]\<rparr>))"

text \<open>
  Modelled from the spec: \<open>Merge.AddInput\<close> is declared in another file of the package.
  \<open>merge.AddInput(n)\<close> adds \<open>n\<close> as one more input of the merge: an edge from \<open>n\<close> to
  the merge, appended to the inputs of the merge; \<open>n\<close> gets the input end back.
\<close>

definition Merge_AddInput :: "nat \<Rightarrow> node_ptr \<Rightarrow> heap \<Rightarrow> nat \<times> heap" where
  "Merge_AddInput merge n h =
     (case AddEdge n (NodePtr merge) h of
        (i, out, h1) \<Rightarrow> (i, update_node merge (set_Input out) h1))"

text \<open>Setting the reader of an output end (\<open>lhs.Node = node\<close>).\<close>

definition set_oe_Node :: "nat \<Rightarrow> node_ptr \<Rightarrow> heap \<Rightarrow> heap" where
  "set_oe_Node e n h =
     (if e < length (outputEdges h)
      then h\<lparr>outputEdges := (outputEdges h)[e := (outputEdges h ! e)\<lparr>oe_Node := Some n\<rparr>]\<rparr>
      else h)"

text \<open>
  Modelled from the spec: \<open>OutputEdge.Insert\<close> is declared in another file of the package.
  \<open>e.Insert(n)\<close> splices \<open>n\<close> into the edge that ends in the output end \<open>e\<close>: a new output end,
  read by \<open>n\<close>, takes over the old input end, and \<open>e\<close> is fed by a new input end
  written by \<open>n\<close>. The result is (the output end \<open>n\<close> reads, the input end \<open>n\<close> writes).
\<close>

definition OutputEdge_Insert :: "nat \<Rightarrow> node_ptr \<Rightarrow> heap \<Rightarrow> nat \<times> nat \<times> heap" where
  "OutputEdge_Insert e n h =
     (let old = oe_Input (outputEdges h ! e);
          out = length (outputEdges h);
          i = length (inputEdges h);
          oes = outputEdges h @ [\<lparr>oe_Node = Some n, oe_Input = old\<rparr>];
          ies = (inputEdges h)[old := (inputEdges h ! old)\<lparr>ie_Output := out\<rparr>]
                  @ [\<lparr>ie_Node = n, ie_Output = e\<rparr>]
      in (out, i,
          h\<lparr>inputEdges := ies,
            outputEdges := oes[e := (oes ! e)\<lparr>oe_Input := i\<rparr>]\<rparr>))"

subsection \<open>The shared AuxiliaryFields node\<close>

record AuxiliaryFields_node =
  Aux :: "(string \<times> nat) list"
  Input :: "nat option"
  Output :: "nat option"

definition new_AuxiliaryFields :: AuxiliaryFields_node where
  "new_AuxiliaryFields = \<lparr>Aux = [], Input = None, Output = None\<rparr>"

text \<open>
  Modelled from the spec: the type \<open>AuxiliaryFields\<close> and its method \<open>Iterator\<close> are
  declared in another file of the package. \<open>Iterator(ref)\<close> returns the output edge of
  \<open>ref\<close>, allocating a new one on first sight of that reference; the key is the name of
  the field.
\<close>

definition Iterator :: "AuxiliaryFields_node \<Rightarrow> string \<Rightarrow> heap \<Rightarrow> nat \<times> AuxiliaryFields_node \<times> heap" where
  "Iterator a ref h =
     (case map_of (Aux a) ref of
        Some e \<Rightarrow> (e, a, h)
      | None \<Rightarrow>
          (case NewEdge AuxiliaryFieldsPtr h of
             (i, out, h1) \<Rightarrow> (out, a\<lparr>Aux := Aux a @ [(ref, out)]\<rparr>, h1)))"

subsection \<open>The compiled statement\<close>

record compiledStatement =
  Sources :: "source list"
  FunctionCalls :: "nat list"
  OnlySelectors :: bool
  TopBottomFunction :: string
  AuxiliaryFields :: "AuxiliaryFields_node option"
  Distinct :: "nat option"
  OutputEdges :: "nat list"

definition newCompiler :: "SelectStatement \<Rightarrow> compiledStatement" where
  "newCompiler stmt =
     \<lparr>Sources = [], FunctionCalls = [], OnlySelectors = True, TopBottomFunction = [],
      AuxiliaryFields = None, Distinct = None, OutputEdges = []\<rparr>"

text \<open>
  The loop over the sources, which the function compiler and the auxiliary-field linker
  both run: one IteratorCreator per measurement, added as an input of the merge; any
  other kind of source panics.
\<close>

fun addIteratorCreators :: "string option \<Rightarrow> nat \<Rightarrow> source list \<Rightarrow> heap \<Rightarrow> error + heap" where
  "addIteratorCreators arg merge [] h = Inr h"
| "addIteratorCreators arg merge (Measurement m # ss) h =
     (case new_node (IteratorCreatorNode arg m None) h of
        (ic, h1) \<Rightarrow>
          (case Merge_AddInput merge (NodePtr ic) h1 of
             (i, h2) \<Rightarrow> addIteratorCreators arg merge ss (update_node ic (set_Output i) h2)))"
| "addIteratorCreators arg merge (SubQuery # ss) h = Inl (Panic ''unimplemented'')"

text \<open>The meta properties recorded for a compiled call.\<close>

definition mark_function :: "string \<Rightarrow> compiledStatement \<Rightarrow> compiledStatement" where
  "mark_function name c =
     (if name = ''top'' \<or> name = ''bottom''
      then (if TopBottomFunction c = [] then c\<lparr>TopBottomFunction := name\<rparr> else c)
      else if name = ''max'' \<or> name = ''min'' \<or> name = ''first'' \<or> name = ''last''
              \<or> name = ''percentile'' \<or> name = ''sample''
      then c
      else c\<lparr>OnlySelectors := False\<rparr>)"

definition compileFunction ::
  "compiledStatement \<Rightarrow> heap \<Rightarrow> string \<Rightarrow> expr list \<Rightarrow> error + (nat \<times> compiledStatement \<times> heap)" where
  "compileFunction c h name args =
     (if 1 \<noteq> length args
      then Inl (Error (''invalid number of arguments for '' @ name @ '', expected ''
                        @ string_of_nat 1 @ '', got '' @ string_of_nat (length args)))
      else if name = ''count'' \<and> is_distinct_Call (args ! 0)
      then Inl (Error ''unimplemented'')
      else
        (case args ! 0 of
           VarRef arg0 \<Rightarrow>
             (case new_node (MergeNode [] None) h of
                (merge, h1) \<Rightarrow>
                  (case addIteratorCreators (Some arg0) merge (Sources c) h1 of
                     Inl e \<Rightarrow> Inl e
                   | Inr h2 \<Rightarrow>
                       (case new_node (FunctionCallNode name None None) h2 of
                          (call, h3) \<Rightarrow>
                            (case AddEdge (NodePtr merge) (NodePtr call) h3 of
                               (mo, ci, h4) \<Rightarrow>
                                 (case NewEdge (NodePtr call)
                                         (update_node call (set_Input ci)
                                           (update_node merge (set_Output mo) h4)) of
                                    (co, out, h5) \<Rightarrow>
                                      Inr (out,
                                           (mark_function name c)
                                             \<lparr>FunctionCalls := FunctionCalls c @ [out]\<rparr>,
                                           update_node call (set_Output co) h5))))))
         | _ \<Rightarrow> Inl (Error (''expected field argument in '' @ name @ ''()''))))"

fun compileExpr ::
  "compiledStatement \<Rightarrow> heap \<Rightarrow> expr \<Rightarrow> error + (nat \<times> compiledStatement \<times> heap)" where
  "compileExpr c h (VarRef v) =
     (case Iterator (case AuxiliaryFields c of None \<Rightarrow> new_AuxiliaryFields | Some a \<Rightarrow> a) v h of
        (out, a, h1) \<Rightarrow> Inr (out, c\<lparr>AuxiliaryFields := Some a\<rparr>, h1))"
| "compileExpr c h (Call name args) =
     (if name \<in> set [''count'', ''min'', ''max'', ''sum'', ''first'', ''last'', ''mean'']
      then compileFunction c h name args
      else Inl (Error ''unimplemented''))"
| "compileExpr c h (BinaryExpr op lhs rhs) =
     (if is_Literal lhs then Inl (Error ''unimplemented'')
      else if is_Literal rhs then Inl (Error ''unimplemented'')
      else
        (case compileExpr c h lhs of
           Inl e \<Rightarrow> Inl e
         | Inr (l, c1, h1) \<Rightarrow>
             (case compileExpr c1 h1 rhs of
                Inl e \<Rightarrow> Inl e
              | Inr (r, c2, h2) \<Rightarrow>
                  (case new_node (BinaryExprNode l r op None) h2 of
                     (node, h3) \<Rightarrow>
                       (case NewEdge (NodePtr node)
                               (set_oe_Node r (NodePtr node) (set_oe_Node l (NodePtr node) h3)) of
                          (no, out, h4) \<Rightarrow>
                            Inr (out, c2, update_node node (set_Output no) h4))))))"
| "compileExpr c h e = Inl (Error ''unimplemented'')"

definition linkAuxiliaryFields ::
  "compiledStatement \<Rightarrow> heap \<Rightarrow> error + (compiledStatement \<times> heap)" where
  "linkAuxiliaryFields c h =
     (case AuxiliaryFields c of
        None \<Rightarrow>
          (if length (FunctionCalls c) = 0
           then Inl (Error ''at least 1 non-time field must be queried'')
           else Inr (c, h))
      | Some a \<Rightarrow>
          (if \<not> OnlySelectors c
           then Inl (Error ''mixing aggregate and non-aggregate queries is not supported'')
           else if length (FunctionCalls c) > 1
           then Inl (Error ''mixing multiple selector functions with tags or fields is not supported'')
           else if length (FunctionCalls c) = 1
           then
             (case OutputEdge_Insert (FunctionCalls c ! 0) AuxiliaryFieldsPtr h of
                (i, out, h1) \<Rightarrow>
                  Inr (c\<lparr>AuxiliaryFields := Some (a\<lparr>Input := Some i, Output := Some out\<rparr>)\<rparr>, h1))
           else
             (case new_node (MergeNode [] None) h of
                (merge, h1) \<Rightarrow>
                  (case addIteratorCreators None merge (Sources c) h1 of
                     Inl e \<Rightarrow> Inl e
                   | Inr h2 \<Rightarrow>
                       (case AddEdge (NodePtr merge) AuxiliaryFieldsPtr h2 of
                          (mo, ai, h3) \<Rightarrow>
                            Inr (c\<lparr>AuxiliaryFields := Some (a\<lparr>Input := Some ai\<rparr>)\<rparr>,
                                 update_node merge (set_Output mo) h3))))))"

definition validateFields :: "compiledStatement \<Rightarrow> error option" where
  "validateFields c =
     (if length (FunctionCalls c) > 1 \<and> TopBottomFunction c \<noteq> []
      then Some (Error (''selector function '' @ TopBottomFunction c
                          @ ''() cannot be combined with other functions''))
      else None)"

text \<open>The loop of \<open>Compile\<close> over the fields of the statement.\<close>

fun compileFields ::
  "compiledStatement \<Rightarrow> heap \<Rightarrow> Field list \<Rightarrow> error + (compiledStatement \<times> heap)" where
  "compileFields c h [] = Inr (c, h)"
| "compileFields c h (f # fs) =
     (if is_time (Expr f) then compileFields c h fs
      else
        (case compileExpr c h (Expr f) of
           Inl e \<Rightarrow> Inl e
         | Inr (out, c1, h1) \<Rightarrow> compileFields (c1\<lparr>OutputEdges := OutputEdges c1 @ [out]\<rparr>) h1 fs))"

definition Compile :: "SelectStatement \<Rightarrow> error + (compiledStatement \<times> heap)" where
  "Compile stmt =
     (case compileFields ((newCompiler stmt)\<lparr>Sources := Sources (newCompiler stmt) @ SelectStatement.Sources stmt\<rparr>)
             empty_heap (Fields stmt) of
        Inl e \<Rightarrow> Inl e
      | Inr (c, h) \<Rightarrow>
          (case linkAuxiliaryFields c h of
             Inl e \<Rightarrow> Inl e
           | Inr (c1, h1) \<Rightarrow>
               (case validateFields c1 of
                  Some e \<Rightarrow> Inl e
                | None \<Rightarrow> Inr (c1, h1))))"

subsection \<open>Select and the plan\<close>

text \<open>
  Modelled from the spec: the type \<open>Plan\<close> and its method \<open>AddTarget\<close> are declared in
  another file of the package. The plan keeps the output edges registered as top-level
  results, in the order of the calls.
\<close>

record Plan =
  targets :: "nat list"

definition AddTarget :: "Plan \<Rightarrow> nat \<Rightarrow> Plan" where
  "AddTarget plan e = plan\<lparr>targets := targets plan @ [e]\<rparr>"

text \<open>The result is (the returned edges, the returned error, the plan after the calls).\<close>

definition Select :: "compiledStatement \<Rightarrow> Plan \<Rightarrow> nat list \<times> error option \<times> Plan" where
  "Select c plan = (OutputEdges c, None, foldl AddTarget plan (OutputEdges c))"

subsection \<open>The state after the field loop, and what a statement asks for\<close>

text \<open>The compiler state when the loop over the fields has finished.\<close>

definition compiled_fields :: "SelectStatement \<Rightarrow> error + (compiledStatement \<times> heap)" where
  "compiled_fields stmt =
     compileFields ((newCompiler stmt)\<lparr>Sources := Sources (newCompiler stmt) @ SelectStatement.Sources stmt\<rparr>)
       empty_heap (Fields stmt)"

text \<open>Every field of the statement compiles: the loop ends without an error or a panic.\<close>

definition fields_compile :: "SelectStatement \<Rightarrow> bool" where
  "fields_compile stmt = (\<not> isl (compiled_fields stmt))"

text \<open>
  The names of the calls that the expression compiler hands to the function compiler:
  a call that is the expression itself, or an operand (at any depth) of a binary
  expression. The arguments of a call are never compiled as expressions.
\<close>

fun calls :: "expr \<Rightarrow> string list" where
  "calls (Call name args) = [name]"
| "calls (BinaryExpr op lhs rhs) = calls lhs @ calls rhs"
| "calls e = []"

text \<open>The expression reaches a variable reference in the same way.\<close>

fun has_VarRef :: "expr \<Rightarrow> bool" where
  "has_VarRef (VarRef v) = True"
| "has_VarRef (BinaryExpr op lhs rhs) = (has_VarRef lhs \<or> has_VarRef rhs)"
| "has_VarRef e = False"

definition is_aggregate :: "string \<Rightarrow> bool" where
  "is_aggregate name = (name = ''count'' \<or> name = ''sum'' \<or> name = ''mean'')"

definition is_selector :: "string \<Rightarrow> bool" where
  "is_selector name =
     (name \<in> set [''top'', ''bottom'', ''max'', ''min'', ''first'', ''last'', ''percentile'', ''sample''])"

definition is_supported :: "string \<Rightarrow> bool" where
  "is_supported name = (name \<in> set [''count'', ''min'', ''max'', ''sum'', ''first'', ''last'', ''mean''])"

text \<open>The fields the loop does not skip, and the calls compiled for them.\<close>

definition nontime_fields :: "Field list \<Rightarrow> Field list" where
  "nontime_fields fs = filter (\<lambda>f. \<not> is_time (Expr f)) fs"

definition field_calls :: "Field list \<Rightarrow> string list" where
  "field_calls fs = concat (map (\<lambda>f. calls (Expr f)) (nontime_fields fs))"

text \<open>A raw field: a plain variable reference other than \<open>time\<close>.\<close>

definition is_raw_field :: "Field \<Rightarrow> bool" where
  "is_raw_field f = (case Expr f of VarRef v \<Rightarrow> v \<noteq> ''time'' | _ \<Rightarrow> False)"

fun is_Measurement :: "source \<Rightarrow> bool" where
  "is_Measurement (Measurement m) = True"
| "is_Measurement SubQuery = False"

text \<open>A selector the dispatcher accepts, applied to one plain variable reference.\<close>

fun is_selector_of_field :: "expr \<Rightarrow> bool" where
  "is_selector_of_field (Call name [VarRef v]) =
     (name \<in> set [''max'', ''min'', ''first'', ''last''])"
| "is_selector_of_field e = False"

text \<open>The errors the expression compiler and the field loop can end in.\<close>

definition field_error :: "error \<Rightarrow> bool" where
  "field_error e =
     (e = Panic ''unimplemented'' \<or> e = Error ''unimplemented''
      \<or> (\<exists>s. e = Error (''invalid number of arguments for '' @ s))
      \<or> (\<exists>s. e = Error (''expected field argument in '' @ s)))"

subsection \<open>Writing concrete statements\<close>

text \<open>
  \<open>field_of e\<close> is the field of expression \<open>e\<close> without an alias, and
  \<open>select_from_cpu es\<close> is the statement \<open>SELECT es FROM cpu\<close>.
\<close>

abbreviation (input) field_of :: "expr \<Rightarrow> Field" where
  "field_of e \<equiv> \<lparr>Expr = e, Alias = []\<rparr>"

abbreviation (input) select_from_cpu :: "expr list \<Rightarrow> SelectStatement" where
  "select_from_cpu es \<equiv> \<lparr>Fields = map field_of es, Sources = [Measurement ''cpu'']\<rparr>"

section \<open>Properties\<close>

subsection \<open>What compiling one expression does to the compiler state\<close>

lemma compileFunction_Inr:
  assumes "compileFunction c h name args = Inr (out, c', h')"
  shows "\<exists>v. args = [VarRef v] \<and> c' = (mark_function name c)\<lparr>FunctionCalls := FunctionCalls c @ [out]\<rparr>"
proof -
  from assms have len: "length args = 1"
    by (auto simp: compileFunction_def split: if_splits)
  then obtain a where a: "args = [a]"
    by (cases args) auto
  from assms a show ?thesis
    by (auto simp: compileFunction_def split: if_splits expr.splits prod.splits sum.splits)
qed

lemma mark_function_supported:
  "is_supported name \<Longrightarrow>
   mark_function name c = (if is_aggregate name then c\<lparr>OnlySelectors := False\<rparr> else c)"
  by (auto simp: is_supported_def is_aggregate_def mark_function_def)

lemma compileExpr_effect:
  "compileExpr c h e = Inr (out, c', h') \<Longrightarrow>
     Sources c' = Sources c \<and> TopBottomFunction c' = TopBottomFunction c
     \<and> OutputEdges c' = OutputEdges c \<and> Distinct c' = Distinct c
     \<and> length (FunctionCalls c') = length (FunctionCalls c) + length (calls e)
     \<and> OnlySelectors c' = (OnlySelectors c \<and> \<not> list_ex is_aggregate (calls e))
     \<and> (AuxiliaryFields c' \<noteq> None) = (AuxiliaryFields c \<noteq> None \<or> has_VarRef e)
     \<and> list_all is_supported (calls e)"
proof (induction c h e arbitrary: out c' h' rule: compileExpr.induct)
  case (1 c h v)
  then show ?case by (auto split: prod.splits)
next
  case (2 c h name args)
  then have sup: "is_supported name" and cf: "compileFunction c h name args = Inr (out, c', h')"
    by (auto simp: is_supported_def split: if_splits)
  from compileFunction_Inr[OF cf] mark_function_supported[OF sup, of c] show ?case
    using sup by auto
next
  case (3 c h op lhs rhs)
  from "3.prems" obtain l c1 h1 where L: "compileExpr c h lhs = Inr (l, c1, h1)"
    and nl: "\<not> is_Literal lhs" "\<not> is_Literal rhs"
    by (auto split: if_splits sum.splits)
  from "3.prems" L nl obtain r c2 h2 where R: "compileExpr c1 h1 rhs = Inr (r, c2, h2)"
    by (auto split: if_splits sum.splits)
  from "3.prems" L R nl have c': "c' = c2"
    by (auto split: prod.splits)
  from "3.IH"(1)[OF nl L] "3.IH"(2)[OF nl L _ _ R] c' show ?case
    by auto
qed auto

lemma Compile_compiled_fields:
  "Compile stmt =
     (case compiled_fields stmt of
        Inl e \<Rightarrow> Inl e
      | Inr (c, h) \<Rightarrow>
          (case linkAuxiliaryFields c h of
             Inl e \<Rightarrow> Inl e
           | Inr (c1, h1) \<Rightarrow> (case validateFields c1 of Some e \<Rightarrow> Inl e | None \<Rightarrow> Inr (c1, h1))))"
  by (simp add: Compile_def compiled_fields_def)

lemma compileFields_effect:
  "compileFields c h fs = Inr (c', h') \<Longrightarrow>
     Sources c' = Sources c \<and> TopBottomFunction c' = TopBottomFunction c
     \<and> length (OutputEdges c') = length (OutputEdges c) + length (nontime_fields fs)
     \<and> length (FunctionCalls c') = length (FunctionCalls c) + length (field_calls fs)
     \<and> OnlySelectors c' = (OnlySelectors c \<and> \<not> list_ex is_aggregate (field_calls fs))
     \<and> (AuxiliaryFields c' \<noteq> None) =
         (AuxiliaryFields c \<noteq> None \<or> list_ex (\<lambda>f. has_VarRef (Expr f)) (nontime_fields fs))
     \<and> list_all is_supported (field_calls fs)"
proof (induction fs arbitrary: c h)
  case Nil
  then show ?case by (simp add: nontime_fields_def field_calls_def)
next
  case (Cons f fs)
  show ?case
  proof (cases "is_time (Expr f)")
    case True
    with Cons.prems have "compileFields c h fs = Inr (c', h')" by simp
    from Cons.IH[OF this] True show ?thesis
      by (simp add: nontime_fields_def field_calls_def)
  next
    case False
    with Cons.prems obtain out c1 h1 where
      E: "compileExpr c h (Expr f) = Inr (out, c1, h1)" and
      R: "compileFields (c1\<lparr>OutputEdges := OutputEdges c1 @ [out]\<rparr>) h1 fs = Inr (c', h')"
      by (auto split: sum.splits)
    from compileExpr_effect[OF E] Cons.IH[OF R] False show ?thesis
      by (auto simp: nontime_fields_def field_calls_def)
  qed
qed

lemma newCompiler_fields:
  "OnlySelectors (newCompiler stmt) \<and> TopBottomFunction (newCompiler stmt) = []
   \<and> FunctionCalls (newCompiler stmt) = [] \<and> OutputEdges (newCompiler stmt) = []
   \<and> AuxiliaryFields (newCompiler stmt) = None \<and> Sources (newCompiler stmt) = []"
  by (simp add: newCompiler_def)

lemma compiled_fields_effect:
  assumes "compiled_fields stmt = Inr (c, h)"
  shows "Sources c = SelectStatement.Sources stmt" and "TopBottomFunction c = []"
    and "length (OutputEdges c) = length (nontime_fields (Fields stmt))"
    and "length (FunctionCalls c) = length (field_calls (Fields stmt))"
    and "OnlySelectors c = (\<not> list_ex is_aggregate (field_calls (Fields stmt)))"
    and "(AuxiliaryFields c \<noteq> None) = list_ex (\<lambda>f. has_VarRef (Expr f)) (nontime_fields (Fields stmt))"
    and "list_all is_supported (field_calls (Fields stmt))"
  using compileFields_effect[OF assms[unfolded compiled_fields_def]] newCompiler_fields[of stmt]
  by simp_all

lemma linkAuxiliaryFields_Inr:
  "linkAuxiliaryFields c h = Inr (c', h') \<Longrightarrow>
     Sources c' = Sources c \<and> FunctionCalls c' = FunctionCalls c
     \<and> OnlySelectors c' = OnlySelectors c \<and> TopBottomFunction c' = TopBottomFunction c
     \<and> Distinct c' = Distinct c \<and> OutputEdges c' = OutputEdges c
     \<and> (AuxiliaryFields c' = None) = (AuxiliaryFields c = None)"
  by (auto simp: linkAuxiliaryFields_def split: option.splits if_splits prod.splits sum.splits)

lemma validateFields_no_TopBottom: "TopBottomFunction c = [] \<Longrightarrow> validateFields c = None"
  by (simp add: validateFields_def)

lemma raw_field_has_VarRef:
  "list_ex is_raw_field fs \<Longrightarrow> list_ex (\<lambda>f. has_VarRef (Expr f)) (nontime_fields fs)"
proof -
  have "is_raw_field f \<Longrightarrow> \<not> is_time (Expr f) \<and> has_VarRef (Expr f)" for f
    by (cases "Expr f") (auto simp: is_raw_field_def)
  then show "list_ex is_raw_field fs \<Longrightarrow> list_ex (\<lambda>f. has_VarRef (Expr f)) (nontime_fields fs)"
    by (auto simp: list_ex_iff nontime_fields_def)
qed

lemma addIteratorCreators_ok:
  "list_all is_Measurement ss \<Longrightarrow> \<exists>h'. addIteratorCreators arg merge ss h = Inr h'"
proof (induction ss arbitrary: h)
  case Nil
  show ?case by simp
next
  case (Cons s ss)
  then obtain m where "s = Measurement m" and "list_all is_Measurement ss"
    by (cases s) auto
  with Cons.IH show ?case
    by (simp split: prod.splits)
qed

lemma compileFunction_ok:
  assumes "list_all is_Measurement (Sources c)"
  shows "\<exists>out h'. compileFunction c h name [VarRef v] =
           Inr (out, (mark_function name c)\<lparr>FunctionCalls := FunctionCalls c @ [out]\<rparr>, h')"
proof -
  obtain merge h1 where n: "new_node (MergeNode [] None) h = (merge, h1)"
    by (cases "new_node (MergeNode [] None) h")
  from addIteratorCreators_ok[OF assms] obtain h2 where
    "addIteratorCreators (Some v) merge (Sources c) h1 = Inr h2" by blast
  with n show ?thesis
    by (simp add: compileFunction_def split: prod.splits)
qed

lemma compileFields_selectors_ok:
  "list_all is_Measurement (Sources c) \<Longrightarrow>
   list_all (\<lambda>f. is_selector_of_field (Expr f)) (nontime_fields fs) \<Longrightarrow>
   \<exists>c' h'. compileFields c h fs = Inr (c', h')"
proof (induction fs arbitrary: c h)
  case Nil
  show ?case by simp
next
  case (Cons f fs)
  show ?case
  proof (cases "is_time (Expr f)")
    case True
    with Cons show ?thesis by (simp add: nontime_fields_def)
  next
    case False
    with Cons.prems(2) have sel: "is_selector_of_field (Expr f)"
      and rest: "list_all (\<lambda>f. is_selector_of_field (Expr f)) (nontime_fields fs)"
      by (simp_all add: nontime_fields_def)
    from sel obtain name v where e: "Expr f = Call name [VarRef v]"
      and name: "name \<in> set [''max'', ''min'', ''first'', ''last'']"
      by (cases "Expr f" rule: is_selector_of_field.cases) auto
    from compileFunction_ok[OF Cons.prems(1), of h name v] obtain out h1 where
      cf: "compileFunction c h name [VarRef v] =
             Inr (out, (mark_function name c)\<lparr>FunctionCalls := FunctionCalls c @ [out]\<rparr>, h1)"
      by blast
    let ?c1 = "(mark_function name c)\<lparr>FunctionCalls := FunctionCalls c @ [out]\<rparr>"
    from name cf e have ce: "compileExpr c h (Expr f) = Inr (out, ?c1, h1)"
      by auto
    have "Sources (?c1\<lparr>OutputEdges := OutputEdges ?c1 @ [out]\<rparr>) = Sources c"
      using compileExpr_effect[OF ce] by simp
    with Cons.prems(1) have "list_all is_Measurement (Sources (?c1\<lparr>OutputEdges := OutputEdges ?c1 @ [out]\<rparr>))"
      by simp
    from Cons.IH[OF this rest, of h1] False ce show ?thesis
      by simp
  qed
qed

lemma selector_fields_calls:
  "list_all (\<lambda>f. is_selector_of_field (Expr f)) fs \<Longrightarrow>
   length (concat (map (\<lambda>f. calls (Expr f)) fs)) = length fs
   \<and> \<not> list_ex (\<lambda>f. has_VarRef (Expr f)) fs"
proof (induction fs)
  case Nil
  show ?case by simp
next
  case (Cons f fs)
  then have "is_selector_of_field (Expr f)" by simp
  then obtain name v where "Expr f = Call name [VarRef v]"
    by (cases "Expr f" rule: is_selector_of_field.cases) auto
  with Cons show ?case by simp
qed

lemma addIteratorCreators_error:
  "addIteratorCreators arg merge ss h = Inl e \<Longrightarrow> e = Panic ''unimplemented''"
proof (induction ss arbitrary: h)
  case Nil
  then show ?case by simp
next
  case (Cons s ss)
  then show ?case
    by (cases s) (auto split: prod.splits)
qed

lemma compileFunction_error: "compileFunction c h name args = Inl e \<Longrightarrow> field_error e"
  unfolding compileFunction_def field_error_def
  by (auto split: if_splits expr.splits prod.splits sum.splits dest: addIteratorCreators_error)

lemma compileExpr_error: "compileExpr c h e = Inl err \<Longrightarrow> field_error err"
proof (induction c h e rule: compileExpr.induct)
  case (1 c h v)
  then show ?case by (auto split: prod.splits)
next
  case (2 c h name args)
  then show ?case
    by (auto simp: field_error_def split: if_splits dest: compileFunction_error)
next
  case (3 c h op lhs rhs)
  then show ?case
    by (auto simp: field_error_def[of "Error ''unimplemented''"] split: if_splits sum.splits prod.splits)
qed (auto simp: field_error_def)

lemma compileFields_error: "compileFields c h fs = Inl err \<Longrightarrow> field_error err"
proof (induction fs arbitrary: c h)
  case Nil
  then show ?case by simp
next
  case (Cons f fs)
  then show ?case
    by (auto split: if_splits sum.splits dest: compileExpr_error)
qed

lemma compileFields_append:
  "compileFields c h (xs @ ys) =
     (case compileFields c h xs of Inl e \<Rightarrow> Inl e | Inr (c1, h1) \<Rightarrow> compileFields c1 h1 ys)"
  by (induction xs arbitrary: c h) (auto split: sum.splits)

lemma compileFields_skip_time:
  "compileFields c h (nontime_fields fs) = compileFields c h fs"
  by (induction fs arbitrary: c h) (auto simp: nontime_fields_def split: sum.splits)

lemma linkAuxiliaryFields_error:
  "linkAuxiliaryFields c h = Inl e \<Longrightarrow>
     (e = Error ''at least 1 non-time field must be queried'' \<and> AuxiliaryFields c = None)
     \<or> (e = Error ''mixing aggregate and non-aggregate queries is not supported''
          \<and> AuxiliaryFields c \<noteq> None \<and> \<not> OnlySelectors c)
     \<or> (e = Error ''mixing multiple selector functions with tags or fields is not supported''
          \<and> AuxiliaryFields c \<noteq> None \<and> 1 < length (FunctionCalls c))
     \<or> e = Panic ''unimplemented''"
  unfolding linkAuxiliaryFields_def
  by (auto split: option.splits if_splits prod.splits sum.splits dest: addIteratorCreators_error)

lemma Compile_cases:
  assumes "Compile stmt = res"
  obtains (fields) e where "compiled_fields stmt = Inl e" "res = Inl e" "field_error e"
  | (link) c h e where "compiled_fields stmt = Inr (c, h)" "linkAuxiliaryFields c h = Inl e" "res = Inl e"
  | (ok) c h c1 h1 where "compiled_fields stmt = Inr (c, h)" "linkAuxiliaryFields c h = Inr (c1, h1)"
      "res = Inr (c1, h1)" "validateFields c1 = None"
proof (cases "compiled_fields stmt")
  case (Inl e)
  then have "field_error e"
    using compileFields_error by (auto simp: compiled_fields_def)
  moreover from Inl assms have "res = Inl e"
    by (simp add: Compile_compiled_fields)
  ultimately show ?thesis using Inl fields by blast
next
  case (Inr p)
  obtain c h where p: "p = (c, h)" by (cases p)
  note cf = Inr[unfolded p]
  show ?thesis
  proof (cases "linkAuxiliaryFields c h")
    case (Inl e)
    with cf assms have "res = Inl e"
      by (simp add: Compile_compiled_fields)
    with cf Inl link show ?thesis by blast
  next
    case lk: (Inr q)
    obtain c1 h1 where q: "q = (c1, h1)" by (cases q)
    note lk1 = lk[unfolded q]
    from compiled_fields_effect(2)[OF cf] linkAuxiliaryFields_Inr[OF lk1]
    have "TopBottomFunction c1 = []" by simp
    then have v: "validateFields c1 = None" by (rule validateFields_no_TopBottom)
    with cf lk1 assms have "res = Inr (c1, h1)"
      by (simp add: Compile_compiled_fields)
    with cf lk1 v ok show ?thesis by blast
  qed
qed

lemma mark_function_OnlySelectors:
  "OnlySelectors (mark_function name c) = (OnlySelectors c \<and> is_selector name)"
  by (auto simp: mark_function_def is_selector_def)

lemma compileFields_all_time:
  "list_all (\<lambda>f. is_time (Expr f)) fs \<Longrightarrow> compileFields c h fs = Inr (c, h)"
  by (induction fs) auto

lemma compileFields_outputs:
  "compileFields c h fs = Inr (c', h') \<Longrightarrow>
     \<exists>outs. OutputEdges c' = OutputEdges c @ outs
       \<and> list_all2 (\<lambda>f out. \<exists>ci hi ci' hi'. compileExpr ci hi (Expr f) = Inr (out, ci', hi'))
            (nontime_fields fs) outs"
proof (induction fs arbitrary: c h)
  case Nil
  then show ?case by (simp add: nontime_fields_def)
next
  case (Cons f fs)
  show ?case
  proof (cases "is_time (Expr f)")
    case True
    with Cons.prems have "compileFields c h fs = Inr (c', h')" by simp
    from Cons.IH[OF this] True show ?thesis
      by (simp add: nontime_fields_def)
  next
    case False
    with Cons.prems obtain out c1 h1 where
      E: "compileExpr c h (Expr f) = Inr (out, c1, h1)" and
      R: "compileFields (c1\<lparr>OutputEdges := OutputEdges c1 @ [out]\<rparr>) h1 fs = Inr (c', h')"
      by (auto split: sum.splits)
    from Cons.IH[OF R] obtain outs where
      o: "OutputEdges c' = (OutputEdges c1 @ [out]) @ outs" and
      a: "list_all2 (\<lambda>f out. \<exists>ci hi ci' hi'. compileExpr ci hi (Expr f) = Inr (out, ci', hi'))
            (nontime_fields fs) outs"
      by auto
    from compileExpr_effect[OF E] have "OutputEdges c1 = OutputEdges c" by simp
    with o have "OutputEdges c' = OutputEdges c @ (out # outs)" by simp
    moreover from a E False
    have "list_all2 (\<lambda>f out. \<exists>ci hi ci' hi'. compileExpr ci hi (Expr f) = Inr (out, ci', hi'))
            (nontime_fields (f # fs)) (out # outs)"
      by (auto simp: nontime_fields_def)
    ultimately show ?thesis by blast
  qed
qed

text \<open>
  The run of the field loop, state by state: \<open>cs ! i\<close> and \<open>hs ! i\<close> are the compiler
  state and the heap in which the i-th non-time field is compiled, and the edge that
  \<open>compileExpr\<close> returns there is the one the loop appends to the output edges.
\<close>

lemma compileFields_chain:
  "compileFields c h fs = Inr (c', h') \<Longrightarrow>
     \<exists>cs hs. length cs = Suc (length (nontime_fields fs))
       \<and> length hs = Suc (length (nontime_fields fs))
       \<and> cs ! 0 = c \<and> hs ! 0 = h
       \<and> cs ! length (nontime_fields fs) = c' \<and> hs ! length (nontime_fields fs) = h'
       \<and> (\<forall>i<length (nontime_fields fs). \<exists>ci.
             compileExpr (cs ! i) (hs ! i) (Expr (nontime_fields fs ! i)) =
               Inr (OutputEdges c' ! (length (OutputEdges c) + i), ci, hs ! Suc i)
             \<and> cs ! Suc i =
                 ci\<lparr>OutputEdges := OutputEdges ci @ [OutputEdges c' ! (length (OutputEdges c) + i)]\<rparr>)"
proof (induction fs arbitrary: c h)
  case Nil
  then have "c' = c" "h' = h" by simp_all
  then show ?case
    by (intro exI[of _ "[c]"] exI[of _ "[h]"]) (simp add: nontime_fields_def)
next
  case (Cons f fs)
  show ?case
  proof (cases "is_time (Expr f)")
    case True
    with Cons.prems have "compileFields c h fs = Inr (c', h')" by simp
    from Cons.IH[OF this] True show ?thesis
      by (simp add: nontime_fields_def)
  next
    case False
    with Cons.prems obtain out c1 h1 where
      E: "compileExpr c h (Expr f) = Inr (out, c1, h1)" and
      R: "compileFields (c1\<lparr>OutputEdges := OutputEdges c1 @ [out]\<rparr>) h1 fs = Inr (c', h')"
      by (auto split: sum.splits)
    let ?c1 = "c1\<lparr>OutputEdges := OutputEdges c1 @ [out]\<rparr>"
    let ?m = "length (nontime_fields fs)"
    from compileExpr_effect[OF E] have oc1: "OutputEdges c1 = OutputEdges c" by simp
    from compileFields_outputs[OF R] obtain outs where
      o: "OutputEdges c' = (OutputEdges c @ [out]) @ outs"
      by (auto simp: oc1)
    then have out: "OutputEdges c' ! length (OutputEdges c) = out"
      by (simp add: nth_append)
    from Cons.IH[OF R] obtain cs hs where
      len: "length cs = Suc ?m" "length hs = Suc ?m" and
      first: "cs ! 0 = ?c1" "hs ! 0 = h1" and
      final: "cs ! ?m = c'" "hs ! ?m = h'" and
      step: "\<And>i. i < ?m \<Longrightarrow> \<exists>ci.
             compileExpr (cs ! i) (hs ! i) (Expr (nontime_fields fs ! i)) =
               Inr (OutputEdges c' ! (length (OutputEdges ?c1) + i), ci, hs ! Suc i)
             \<and> cs ! Suc i =
                 ci\<lparr>OutputEdges := OutputEdges ci @ [OutputEdges c' ! (length (OutputEdges ?c1) + i)]\<rparr>"
      by blast
    have nf: "nontime_fields (f # fs) = f # nontime_fields fs"
      using False by (simp add: nontime_fields_def)
    have all: "\<exists>ci.
             compileExpr ((c # cs) ! i) ((h # hs) ! i) (Expr ((f # nontime_fields fs) ! i)) =
               Inr (OutputEdges c' ! (length (OutputEdges c) + i), ci, (h # hs) ! Suc i)
             \<and> (c # cs) ! Suc i =
                 ci\<lparr>OutputEdges := OutputEdges ci @ [OutputEdges c' ! (length (OutputEdges c) + i)]\<rparr>"
      if i: "i < Suc ?m" for i
    proof (cases i)
      case 0
      with E out first show ?thesis by simp
    next
      case (Suc j)
      with i have "j < ?m" by simp
      from step[OF this] Suc oc1 show ?thesis by simp
    qed
    show ?thesis
      unfolding nf
      by (intro exI[of _ "c # cs"] exI[of _ "h # hs"]) (use len final all in simp)
  qed
qed

lemma foldl_AddTarget: "foldl AddTarget plan es = plan\<lparr>targets := targets plan @ es\<rparr>"
  by (induction es arbitrary: plan) (simp_all add: AddTarget_def)



subsection \<open>Unfolding the model on a concrete statement\<close>

lemmas model_defs = Compile_def linkAuxiliaryFields_def validateFields_def compiled_fields_def
  fields_compile_def newCompiler_def empty_heap_def compileFunction_def Iterator_def NewEdge_def
  AddEdge_def new_node_def update_node_def Merge_AddInput_def mark_function_def
  new_AuxiliaryFields_def OutputEdge_Insert_def set_oe_Node_def

lemmas shape_defs = nontime_fields_def field_calls_def is_raw_field_def is_aggregate_def
  is_selector_def is_supported_def

section \<open>The claims\<close>

subsection \<open>C1: an aggregate next to a raw field\<close>

text \<open>
  Claim C1, as the compiler has it. For every statement whose fields all compile (the
  field loop ends without an error or a panic), in which at least one field is a plain
  variable reference other than \<open>time\<close> and at least one compiled call is \<open>count\<close>,
  \<open>sum\<close> or \<open>mean\<close>, \<open>Compile\<close> fails with the error
  "mixing aggregate and non-aggregate queries is not supported".
\<close>

theorem C1_mixing_aggregate_error:
  assumes "fields_compile stmt"
    and "list_ex is_raw_field (Fields stmt)"
    and "list_ex is_aggregate (field_calls (Fields stmt))"
  shows "Compile stmt = Inl (Error ''mixing aggregate and non-aggregate queries is not supported'')"
proof -
  from assms(1) obtain c h where cf: "compiled_fields stmt = Inr (c, h)"
    by (cases "compiled_fields stmt") (auto simp: fields_compile_def)
  from compiled_fields_effect(5,6)[OF cf] assms(2,3) raw_field_has_VarRef
  have "\<not> OnlySelectors c" and "AuxiliaryFields c \<noteq> None" by auto
  then have "linkAuxiliaryFields c h =
      Inl (Error ''mixing aggregate and non-aggregate queries is not supported'')"
    by (auto simp: linkAuxiliaryFields_def)
  with cf show ?thesis
    by (simp add: Compile_compiled_fields)
qed

text \<open>The theorem of C1 at \<open>SELECT x, sum(y) FROM cpu\<close>.\<close>

theorem C1_mixing_aggregate_error_witness:
  "fields_compile (select_from_cpu [VarRef ''x'', Call ''sum'' [VarRef ''y'']])
   \<and> Compile (select_from_cpu [VarRef ''x'', Call ''sum'' [VarRef ''y'']]) =
       Inl (Error ''mixing aggregate and non-aggregate queries is not supported'')"
proof -
  let ?s = "select_from_cpu [VarRef ''x'', Call ''sum'' [VarRef ''y'']]"
  have h1: "fields_compile ?s" by (simp add: model_defs)
  have h2: "list_ex is_raw_field (Fields ?s)" by (simp add: shape_defs)
  have h3: "list_ex is_aggregate (field_calls (Fields ?s))" by (simp add: shape_defs)
  from h1 C1_mixing_aggregate_error[OF h1 h2 h3] show ?thesis by (rule conjI)
qed

text \<open>
  Claim C1 without the condition on the fields is false: in
  \<open>SELECT x, sum(y), percentile(z, 90) FROM cpu\<close> the raw field and the aggregate are
  compiled, then the dispatcher rejects \<open>percentile\<close> and \<open>Compile\<close> returns that error,
  "unimplemented", before the auxiliary fields are linked.
\<close>

theorem C1_counterexample:
  "list_ex is_raw_field (Fields (select_from_cpu [VarRef ''x'', Call ''sum'' [VarRef ''y''], Call ''percentile'' [VarRef ''z'', Literal (IntegerLiteral 90)]]))
   \<and> list_ex is_aggregate (field_calls (Fields (select_from_cpu [VarRef ''x'', Call ''sum'' [VarRef ''y''], Call ''percentile'' [VarRef ''z'', Literal (IntegerLiteral 90)]])))
   \<and> Compile (select_from_cpu [VarRef ''x'', Call ''sum'' [VarRef ''y''], Call ''percentile'' [VarRef ''z'', Literal (IntegerLiteral 90)]]) = Inl (Error ''unimplemented'')"
  by (simp add: model_defs shape_defs)

subsection \<open>C2: several selectors, with and without a raw field\<close>

text \<open>
  Claim C2, as the compiler has it. For every statement over measurements whose non-time
  fields are two or more calls of \<open>max\<close>, \<open>min\<close>, \<open>first\<close> or \<open>last\<close>, each on one plain
  variable reference, \<open>Compile\<close> succeeds. For every statement whose fields all compile,
  with more than one compiled call, none of them an aggregate, and at least one raw
  field, \<open>Compile\<close> fails with "mixing multiple selector functions with tags or fields
  is not supported". And \<open>Compile\<close> returns that error only when a field reaches a
  variable reference, that is, only when auxiliary fields exist.
\<close>

theorem C2_multiple_selectors:
  "(list_all is_Measurement (SelectStatement.Sources stmt)
      \<and> list_all (\<lambda>f. is_selector_of_field (Expr f)) (nontime_fields (Fields stmt))
      \<and> 2 \<le> length (nontime_fields (Fields stmt))
     \<longrightarrow> (\<exists>c h. Compile stmt = Inr (c, h)))
   \<and> (fields_compile stmt \<and> 1 < length (field_calls (Fields stmt))
        \<and> list_ex is_raw_field (Fields stmt)
        \<and> \<not> list_ex is_aggregate (field_calls (Fields stmt))
     \<longrightarrow> Compile stmt =
           Inl (Error ''mixing multiple selector functions with tags or fields is not supported''))
   \<and> (Compile stmt =
         Inl (Error ''mixing multiple selector functions with tags or fields is not supported'')
     \<longrightarrow> list_ex (\<lambda>f. has_VarRef (Expr f)) (nontime_fields (Fields stmt)))"
proof (intro conjI impI)
  assume a: "list_all is_Measurement (SelectStatement.Sources stmt)
      \<and> list_all (\<lambda>f. is_selector_of_field (Expr f)) (nontime_fields (Fields stmt))
      \<and> 2 \<le> length (nontime_fields (Fields stmt))"
  let ?c0 = "(newCompiler stmt)\<lparr>Sources := Sources (newCompiler stmt) @ SelectStatement.Sources stmt\<rparr>"
  from a have "list_all is_Measurement (Sources ?c0)"
    by (simp add: newCompiler_def)
  from compileFields_selectors_ok[OF this, of "Fields stmt" empty_heap] a
  obtain c h where cf: "compiled_fields stmt = Inr (c, h)"
    by (auto simp: compiled_fields_def)
  from selector_fields_calls[of "nontime_fields (Fields stmt)"] a
  have n: "length (field_calls (Fields stmt)) = length (nontime_fields (Fields stmt))"
    and nv: "\<not> list_ex (\<lambda>f. has_VarRef (Expr f)) (nontime_fields (Fields stmt))"
    by (simp_all add: field_calls_def nontime_fields_def)
  from compiled_fields_effect(2,4,6)[OF cf] n nv a
  have "AuxiliaryFields c = None" "length (FunctionCalls c) \<noteq> 0" "TopBottomFunction c = []"
    by auto
  then have "linkAuxiliaryFields c h = Inr (c, h)" "validateFields c = None"
    by (simp_all add: linkAuxiliaryFields_def validateFields_def)
  with cf show "\<exists>c h. Compile stmt = Inr (c, h)"
    by (simp add: Compile_compiled_fields)
next
  assume a: "fields_compile stmt \<and> 1 < length (field_calls (Fields stmt))
        \<and> list_ex is_raw_field (Fields stmt)
        \<and> \<not> list_ex is_aggregate (field_calls (Fields stmt))"
  then obtain c h where cf: "compiled_fields stmt = Inr (c, h)"
    by (cases "compiled_fields stmt") (auto simp: fields_compile_def)
  from compiled_fields_effect(4,5,6)[OF cf] a raw_field_has_VarRef[of "Fields stmt"]
  have "AuxiliaryFields c \<noteq> None" "OnlySelectors c" "1 < length (FunctionCalls c)"
    by auto
  then have "linkAuxiliaryFields c h =
      Inl (Error ''mixing multiple selector functions with tags or fields is not supported'')"
    by (auto simp: linkAuxiliaryFields_def)
  with cf show "Compile stmt =
      Inl (Error ''mixing multiple selector functions with tags or fields is not supported'')"
    by (simp add: Compile_compiled_fields)
next
  assume a: "Compile stmt =
      Inl (Error ''mixing multiple selector functions with tags or fields is not supported'')"
  from a show "list_ex (\<lambda>f. has_VarRef (Expr f)) (nontime_fields (Fields stmt))"
  proof (cases rule: Compile_cases)
    case (fields e)
    then show ?thesis by (auto simp: field_error_def)
  next
    case (link c h e)
    with linkAuxiliaryFields_error[OF link(2)] have "AuxiliaryFields c \<noteq> None"
      by auto
    with compiled_fields_effect(6)[OF link(1)] show ?thesis by simp
  next
    case (ok c h c1 h1)
    then show ?thesis by simp
  qed
qed

text \<open>
  The theorem of C2 at \<open>SELECT max(x), min(y) FROM cpu\<close> and at
  \<open>SELECT max(x), min(y), z FROM cpu\<close>.
\<close>

theorem C2_multiple_selectors_witness:
  "(\<exists>c h. Compile (select_from_cpu [Call ''max'' [VarRef ''x''], Call ''min'' [VarRef ''y'']]) = Inr (c, h))
   \<and> Compile (select_from_cpu [Call ''max'' [VarRef ''x''], Call ''min'' [VarRef ''y''], VarRef ''z'']) =
       Inl (Error ''mixing multiple selector functions with tags or fields is not supported'')
   \<and> list_ex (\<lambda>f. has_VarRef (Expr f)) (nontime_fields (Fields (select_from_cpu [Call ''max'' [VarRef ''x''], Call ''min'' [VarRef ''y''], VarRef ''z''])))"
proof -
  let ?a = "select_from_cpu [Call ''max'' [VarRef ''x''], Call ''min'' [VarRef ''y'']]"
  let ?b = "select_from_cpu [Call ''max'' [VarRef ''x''], Call ''min'' [VarRef ''y''], VarRef ''z'']"
  have a: "list_all is_Measurement (SelectStatement.Sources ?a)
      \<and> list_all (\<lambda>f. is_selector_of_field (Expr f)) (nontime_fields (Fields ?a))
      \<and> 2 \<le> length (nontime_fields (Fields ?a))"
    by (simp add: shape_defs)
  have b: "fields_compile ?b \<and> 1 < length (field_calls (Fields ?b))
        \<and> list_ex is_raw_field (Fields ?b)
        \<and> \<not> list_ex is_aggregate (field_calls (Fields ?b))"
    by (simp add: model_defs shape_defs)
  note A = C2_multiple_selectors[of ?a]
  note B = C2_multiple_selectors[of ?b]
  note 1 = A[THEN conjunct1, THEN mp, OF a]
  note 2 = B[THEN conjunct2, THEN conjunct1, THEN mp, OF b]
  note 3 = B[THEN conjunct2, THEN conjunct2, THEN mp, OF 2]
  from 1 2 3 show ?thesis by (intro conjI)
qed

text \<open>
  Claim C2 for every selector call is false: \<open>percentile\<close> is in the selector set, but
  \<open>SELECT max(x), percentile(z, 90) FROM cpu\<close>, two selector calls and no raw field,
  does not compile: the dispatcher answers "unimplemented".
\<close>

theorem C2_counterexample:
  "list_all (\<lambda>f. is_selector (hd (calls (Expr f)))) (Fields (select_from_cpu [Call ''max'' [VarRef ''x''], Call ''percentile'' [VarRef ''z'', Literal (IntegerLiteral 90)]]))
   \<and> \<not> list_ex is_raw_field (Fields (select_from_cpu [Call ''max'' [VarRef ''x''], Call ''percentile'' [VarRef ''z'', Literal (IntegerLiteral 90)]]))
   \<and> Compile (select_from_cpu [Call ''max'' [VarRef ''x''], Call ''percentile'' [VarRef ''z'', Literal (IntegerLiteral 90)]]) = Inl (Error ''unimplemented'')"
  by (simp add: model_defs shape_defs)

subsection \<open>C3: top next to other fields\<close>

text \<open>
  Claim C3, as the compiler has it. A statement with a field that calls \<open>top\<close> never
  compiles: when the fields before that one compile, \<open>Compile\<close> fails with
  "unimplemented", because the dispatcher of the expression compiler does not accept
  \<open>top\<close>; and whenever a compiled position of a field holds a call of \<open>top\<close>, \<open>Compile\<close>
  fails, and never with "selector function top() cannot be combined with other
  functions".
\<close>

theorem C3_top_is_unimplemented:
  "(fields_compile (stmt\<lparr>Fields := pre\<rparr>) \<and> Fields stmt = pre @ f # post
      \<and> Expr f = Call ''top'' args
     \<longrightarrow> Compile stmt = Inl (Error ''unimplemented''))
   \<and> (list_ex (\<lambda>n. n = ''top'') (field_calls (Fields stmt))
     \<longrightarrow> isl (Compile stmt)
         \<and> Compile stmt \<noteq>
             Inl (Error ''selector function top() cannot be combined with other functions''))"
proof (intro conjI impI)
  assume a: "fields_compile (stmt\<lparr>Fields := pre\<rparr>) \<and> Fields stmt = pre @ f # post
      \<and> Expr f = Call ''top'' args"
  then have P: "fields_compile (stmt\<lparr>Fields := pre\<rparr>)" and F: "Fields stmt = pre @ f # post"
    and T: "Expr f = Call ''top'' args"
    by simp_all
  define c0 where "c0 = (newCompiler stmt)\<lparr>Sources := Sources (newCompiler stmt) @ SelectStatement.Sources stmt\<rparr>"
  have "compiled_fields (stmt\<lparr>Fields := pre\<rparr>) = compileFields c0 empty_heap pre"
    by (simp add: compiled_fields_def c0_def newCompiler_def)
  with P obtain c h where pre: "compileFields c0 empty_heap pre = Inr (c, h)"
    by (cases "compileFields c0 empty_heap pre") (auto simp: fields_compile_def)
  from T have "compileFields c h (f # post) = Inl (Error ''unimplemented'')"
    by simp
  with pre have "compileFields c0 empty_heap (pre @ f # post) = Inl (Error ''unimplemented'')"
    by (simp only: compileFields_append sum.case prod.case)
  then have "compiled_fields stmt = Inl (Error ''unimplemented'')"
    by (simp only: compiled_fields_def c0_def F)
  then show "Compile stmt = Inl (Error ''unimplemented'')"
    by (simp add: Compile_compiled_fields)
next
  assume a: "list_ex (\<lambda>n. n = ''top'') (field_calls (Fields stmt))"
  have r: "Compile stmt = Compile stmt" ..
  from r show "isl (Compile stmt)"
  proof (cases rule: Compile_cases)
    case (ok c h c1 h1)
    from a obtain n where "n \<in> set (field_calls (Fields stmt))" "n = ''top''"
      by (auto simp: list_ex_iff)
    with compiled_fields_effect(7)[OF ok(1)] have "is_supported ''top''"
      by (simp add: list_all_iff)
    then have False by (simp add: is_supported_def)
    then show ?thesis ..
  qed simp_all
  from r show "Compile stmt \<noteq>
             Inl (Error ''selector function top() cannot be combined with other functions'')"
  proof (cases rule: Compile_cases)
    case (fields e)
    then show ?thesis by (auto simp: field_error_def)
  next
    case (link c h e)
    with linkAuxiliaryFields_error[OF link(2)] show ?thesis by auto
  next
    case (ok c h c1 h1)
    then show ?thesis by simp
  qed
qed

text \<open>The theorem of C3 at \<open>SELECT max(x), top(y, 3) FROM cpu\<close>.\<close>

theorem C3_top_is_unimplemented_witness:
  "Compile (select_from_cpu [Call ''max'' [VarRef ''x''], Call ''top'' [VarRef ''y'', Literal (IntegerLiteral 3)]]) = Inl (Error ''unimplemented'')
   \<and> isl (Compile (select_from_cpu [Call ''max'' [VarRef ''x''], Call ''top'' [VarRef ''y'', Literal (IntegerLiteral 3)]]))
   \<and> Compile (select_from_cpu [Call ''max'' [VarRef ''x''], Call ''top'' [VarRef ''y'', Literal (IntegerLiteral 3)]]) \<noteq>
       Inl (Error ''selector function top() cannot be combined with other functions'')"
proof -
  let ?s = "select_from_cpu [Call ''max'' [VarRef ''x''], Call ''top'' [VarRef ''y'', Literal (IntegerLiteral 3)]]"
  let ?pre = "[field_of (Call ''max'' [VarRef ''x''])]"
  let ?f = "field_of (Call ''top'' [VarRef ''y'', Literal (IntegerLiteral 3)])"
  have a: "fields_compile (?s\<lparr>Fields := ?pre\<rparr>) \<and> Fields ?s = ?pre @ ?f # []
      \<and> Expr ?f = Call ''top'' [VarRef ''y'', Literal (IntegerLiteral 3)]"
    by (simp add: model_defs)
  have b: "list_ex (\<lambda>n. n = ''top'') (field_calls (Fields ?s))"
    by (simp add: shape_defs)
  note T = C3_top_is_unimplemented[where stmt = "?s" and pre = "?pre" and f = "?f" and post = "[]"
      and args = "[VarRef ''y'', Literal (IntegerLiteral 3)]"]
  note 1 = T[THEN conjunct1, THEN mp, OF a]
  note 2 = T[THEN conjunct2, THEN mp, OF b]
  from 1 2 show ?thesis by (intro conjI) simp_all
qed

text \<open>
  Claim C3 as stated is false: \<open>SELECT top(x, 3) FROM cpu\<close> (top alone) and
  \<open>SELECT top(x, 3), z FROM cpu\<close> (top with a raw field) do not compile, and
  \<open>SELECT top(x, 3), max(y) FROM cpu\<close> fails with "unimplemented", not with the
  exclusivity error.
\<close>

theorem C3_counterexample:
  "Compile (select_from_cpu [Call ''top'' [VarRef ''x'', Literal (IntegerLiteral 3)]]) = Inl (Error ''unimplemented'')
   \<and> Compile (select_from_cpu [Call ''top'' [VarRef ''x'', Literal (IntegerLiteral 3)], VarRef ''z'']) = Inl (Error ''unimplemented'')
   \<and> Compile (select_from_cpu [Call ''top'' [VarRef ''x'', Literal (IntegerLiteral 3)], Call ''max'' [VarRef ''y'']]) = Inl (Error ''unimplemented'')"
  by (simp add: model_defs)

subsection \<open>C4: nothing but time\<close>

text \<open>
  Claim C4. For every statement whose every field is the bare variable reference
  \<open>time\<close>, and so for a statement without fields, \<open>Compile\<close> fails with "at least 1
  non-time field must be queried". A bare \<open>time\<close> reference is skipped: the loop goes
  on in the same compiler state and the same heap, so no node and no output edge is
  made for it, and removing the \<open>time\<close> fields from a statement does not change what
  \<open>Compile\<close> returns.
\<close>

theorem C4_only_time_fields:
  "(list_all (\<lambda>f. is_time (Expr f)) (Fields stmt)
      \<longrightarrow> Compile stmt = Inl (Error ''at least 1 non-time field must be queried''))
   \<and> (is_time (Expr f) \<longrightarrow> compileFields c h (f # fs) = compileFields c h fs)
   \<and> Compile (stmt\<lparr>Fields := nontime_fields (Fields stmt)\<rparr>) = Compile stmt"
proof (intro conjI impI)
  assume "list_all (\<lambda>f. is_time (Expr f)) (Fields stmt)"
  from compileFields_all_time[OF this]
  show "Compile stmt = Inl (Error ''at least 1 non-time field must be queried'')"
    by (simp add: Compile_def newCompiler_def linkAuxiliaryFields_def)
next
  assume "is_time (Expr f)"
  then show "compileFields c h (f # fs) = compileFields c h fs" by simp
next
  show "Compile (stmt\<lparr>Fields := nontime_fields (Fields stmt)\<rparr>) = Compile stmt"
    by (simp add: Compile_def newCompiler_def compileFields_skip_time)
qed

text \<open>The theorem of C4 at \<open>SELECT time, time FROM cpu\<close> and \<open>SELECT time, max(x) FROM cpu\<close>.\<close>

theorem C4_only_time_fields_witness:
  "Compile (select_from_cpu [VarRef ''time'', VarRef ''time'']) = Inl (Error ''at least 1 non-time field must be queried'')
   \<and> compileFields (newCompiler (select_from_cpu [])) empty_heap [field_of (VarRef ''time'')] = compileFields (newCompiler (select_from_cpu [])) empty_heap []
   \<and> Compile ((select_from_cpu [VarRef ''time'', Call ''max'' [VarRef ''x'']])\<lparr>Fields := nontime_fields (Fields (select_from_cpu [VarRef ''time'', Call ''max'' [VarRef ''x'']]))\<rparr>) = Compile (select_from_cpu [VarRef ''time'', Call ''max'' [VarRef ''x'']])"
proof -
  let ?s = "select_from_cpu [VarRef ''time'', VarRef ''time'']"
  let ?f = "field_of (VarRef ''time'')"
  have a: "list_all (\<lambda>f. is_time (Expr f)) (Fields ?s)" by simp
  have b: "is_time (Expr ?f)" by simp
  note 1 = C4_only_time_fields[where stmt = "?s", THEN conjunct1, THEN mp, OF a]
  note 2 = C4_only_time_fields[where f = "?f" and c = "newCompiler (select_from_cpu [])" and h = empty_heap and fs = "[]",
      THEN conjunct2, THEN conjunct1, THEN mp, OF b]
  note 3 = C4_only_time_fields[where stmt = "select_from_cpu [VarRef ''time'', Call ''max'' [VarRef ''x'']]", THEN conjunct2, THEN conjunct2]
  from 1 2 3 show ?thesis by (intro conjI)
qed

subsection \<open>C5: the preconditions of the function compiler\<close>

text \<open>
  Claim C5. \<open>compileFunction\<close> checks, in this order: an argument count other than 1
  fails with an error that names the function, the expected count 1 and the actual
  count; \<open>count\<close> of a \<open>distinct\<close> call fails with "unimplemented"; otherwise a single
  argument that is not a plain variable reference fails with "expected field argument
  in NAME()".
\<close>

theorem C5_compileFunction_preconditions:
  "(length args \<noteq> 1 \<longrightarrow>
      compileFunction c h name args =
        Inl (Error (''invalid number of arguments for '' @ name @ '', expected 1, got ''
                      @ string_of_nat (length args))))
   \<and> (name = ''count'' \<and> is_distinct_Call a \<longrightarrow>
        compileFunction c h name [a] = Inl (Error ''unimplemented''))
   \<and> (\<not> (name = ''count'' \<and> is_distinct_Call a) \<and> \<not> is_VarRef a \<longrightarrow>
        compileFunction c h name [a] = Inl (Error (''expected field argument in '' @ name @ ''()'')))"
proof (intro conjI impI)
  assume "length args \<noteq> 1"
  then show "compileFunction c h name args =
        Inl (Error (''invalid number of arguments for '' @ name @ '', expected 1, got ''
                      @ string_of_nat (length args)))"
    by (simp add: compileFunction_def string_of_nat.simps[of "Suc 0"])
next
  assume "name = ''count'' \<and> is_distinct_Call a"
  then show "compileFunction c h name [a] = Inl (Error ''unimplemented'')"
    by (simp add: compileFunction_def)
next
  assume "\<not> (name = ''count'' \<and> is_distinct_Call a) \<and> \<not> is_VarRef a"
  then show "compileFunction c h name [a] = Inl (Error (''expected field argument in '' @ name @ ''()''))"
    by (cases a) (auto simp: compileFunction_def)
qed

text \<open>The theorem of C5 at \<open>min()\<close>, \<open>min(x, y)\<close>, \<open>count(distinct(x))\<close> and \<open>count(max(x))\<close>.\<close>

theorem C5_compileFunction_preconditions_witness:
  "compileFunction (newCompiler (select_from_cpu [])) empty_heap ''min'' [] =
     Inl (Error ''invalid number of arguments for min, expected 1, got 0'')
   \<and> compileFunction (newCompiler (select_from_cpu [])) empty_heap ''min'' [VarRef ''x'', VarRef ''y''] =
     Inl (Error ''invalid number of arguments for min, expected 1, got 2'')
   \<and> compileFunction (newCompiler (select_from_cpu [])) empty_heap ''count'' [Call ''distinct'' [VarRef ''x'']] =
     Inl (Error ''unimplemented'')
   \<and> compileFunction (newCompiler (select_from_cpu [])) empty_heap ''count'' [Call ''max'' [VarRef ''x'']] =
     Inl (Error ''expected field argument in count()'')"
proof -
  note T = C5_compileFunction_preconditions[where c = "newCompiler (select_from_cpu [])" and h = empty_heap]
  have a: "length ([]::expr list) \<noteq> 1" by simp
  have a2: "length [VarRef ''x'', VarRef ''y''] \<noteq> 1" by simp
  have b: "''count'' = ''count'' \<and> is_distinct_Call (Call ''distinct'' [VarRef ''x''])" by simp
  have c: "\<not> (''count'' = ''count'' \<and> is_distinct_Call (Call ''max'' [VarRef ''x'']))
           \<and> \<not> is_VarRef (Call ''max'' [VarRef ''x''])" by simp
  note 1 = T[where name = "''min''" and args = "[]", THEN conjunct1, THEN mp, OF a]
  note 2 = T[where name = "''min''" and args = "[VarRef ''x'', VarRef ''y'']", THEN conjunct1, THEN mp, OF a2]
  note 3 = T[where name = "''count''" and a = "Call ''distinct'' [VarRef ''x'']",
      THEN conjunct2, THEN conjunct1, THEN mp, OF b]
  note 4 = T[where name = "''count''" and a = "Call ''max'' [VarRef ''x'']",
      THEN conjunct2, THEN conjunct2, THEN mp, OF c]
  from 1 2 3 4 show ?thesis by (simp add: string_of_nat.simps)
qed

subsection \<open>C10: a call as the argument of a function other than count\<close>

text \<open>
  Claim C10. For every function name other than \<open>count\<close> (so for \<open>min\<close>, \<open>max\<close>, \<open>sum\<close>,
  \<open>first\<close>, \<open>last\<close> and \<open>mean\<close>) whose single argument is itself a call, \<open>distinct\<close>
  included, \<open>compileFunction\<close> fails with "expected field argument in NAME()" and not
  with "unimplemented".
\<close>

theorem C10_function_argument_of_other_functions:
  "name \<noteq> ''count'' \<Longrightarrow>
     compileFunction c h name [Call n as] = Inl (Error (''expected field argument in '' @ name @ ''()''))
     \<and> compileFunction c h name [Call n as] \<noteq> Inl (Error ''unimplemented'')"
  by (simp add: compileFunction_def)

text \<open>The theorem of C10 at \<open>min(distinct(x))\<close> and \<open>sum(max(x))\<close>.\<close>

theorem C10_function_argument_of_other_functions_witness:
  "compileFunction (newCompiler (select_from_cpu [])) empty_heap ''min'' [Call ''distinct'' [VarRef ''x'']] =
     Inl (Error ''expected field argument in min()'')
   \<and> compileFunction (newCompiler (select_from_cpu [])) empty_heap ''sum'' [Call ''max'' [VarRef ''x'']] =
     Inl (Error ''expected field argument in sum()'')"
proof -
  have a: "''min'' \<noteq> ''count''" by simp
  have b: "''sum'' \<noteq> ''count''" by simp
  note 1 = C10_function_argument_of_other_functions[OF a, where c = "newCompiler (select_from_cpu [])" and h = empty_heap
      and n = "''distinct''" and as = "[VarRef ''x'']", THEN conjunct1]
  note 2 = C10_function_argument_of_other_functions[OF b, where c = "newCompiler (select_from_cpu [])" and h = empty_heap
      and n = "''max''" and as = "[VarRef ''x'']", THEN conjunct1]
  from 1 2 show ?thesis by simp
qed

subsection \<open>C6: binary expressions\<close>



subsection \<open>C7: Select\<close>

text \<open>
  Claim C7. \<open>Select\<close> returns the output edges of the compiled statement with a nil
  error, and the plan has received exactly these edges as targets, once each and in
  their order. For a statement that compiled, the output edges are aligned with its
  non-time fields: there are as many, and the i-th edge is the one that \<open>compileExpr\<close>
  returned for the i-th non-time field, in the compiler state and heap that the fields
  before it left behind. The run starts from the new compiler over the sources of the
  statement and the empty heap, each step appends its edge to the output edges, and
  linking the auxiliary fields in the last state gives the compiled statement.
\<close>

theorem C7_Select:
  "Select c plan = (OutputEdges c, None, plan\<lparr>targets := targets plan @ OutputEdges c\<rparr>)
   \<and> (Compile stmt = Inr (c', h')
        \<longrightarrow> length (OutputEdges c') = length (nontime_fields (Fields stmt))
          \<and> (\<exists>cs hs.
                length cs = Suc (length (nontime_fields (Fields stmt)))
              \<and> length hs = Suc (length (nontime_fields (Fields stmt)))
              \<and> cs ! 0 = (newCompiler stmt)\<lparr>Sources := Sources (newCompiler stmt) @ SelectStatement.Sources stmt\<rparr>
              \<and> hs ! 0 = empty_heap
              \<and> (\<forall>i<length (nontime_fields (Fields stmt)). \<exists>ci.
                    compileExpr (cs ! i) (hs ! i) (Expr (nontime_fields (Fields stmt) ! i)) =
                      Inr (OutputEdges c' ! i, ci, hs ! Suc i)
                    \<and> cs ! Suc i = ci\<lparr>OutputEdges := OutputEdges ci @ [OutputEdges c' ! i]\<rparr>)
              \<and> linkAuxiliaryFields (cs ! length (nontime_fields (Fields stmt)))
                    (hs ! length (nontime_fields (Fields stmt))) = Inr (c', h')))"
proof (intro conjI impI)
  show "Select c plan = (OutputEdges c, None, plan\<lparr>targets := targets plan @ OutputEdges c\<rparr>)"
    by (simp add: Select_def foldl_AddTarget)
next
  assume a: "Compile stmt = Inr (c', h')"
  let ?c0 = "(newCompiler stmt)\<lparr>Sources := Sources (newCompiler stmt) @ SelectStatement.Sources stmt\<rparr>"
  let ?n = "length (nontime_fields (Fields stmt))"
  from a obtain c1 h1 where F: "compileFields ?c0 empty_heap (Fields stmt) = Inr (c1, h1)"
    and L: "linkAuxiliaryFields c1 h1 = Inr (c', h')"
    by (cases rule: Compile_cases) (auto simp: compiled_fields_def)
  from linkAuxiliaryFields_Inr[OF L] have oe: "OutputEdges c' = OutputEdges c1" by simp
  have o0: "OutputEdges ?c0 = []" by (simp add: newCompiler_def)
  from compileFields_effect[OF F] o0 oe
  show "length (OutputEdges c') = ?n" by simp
  from compileFields_chain[OF F] obtain cs hs where
    len: "length cs = Suc ?n" "length hs = Suc ?n" and
    first: "cs ! 0 = ?c0" "hs ! 0 = empty_heap" and
    final: "cs ! ?n = c1" "hs ! ?n = h1" and
    step: "\<forall>i<?n. \<exists>ci.
             compileExpr (cs ! i) (hs ! i) (Expr (nontime_fields (Fields stmt) ! i)) =
               Inr (OutputEdges c1 ! (length (OutputEdges ?c0) + i), ci, hs ! Suc i)
             \<and> cs ! Suc i =
                 ci\<lparr>OutputEdges := OutputEdges ci @ [OutputEdges c1 ! (length (OutputEdges ?c0) + i)]\<rparr>"
    by blast
  from step have step': "\<forall>i<?n. \<exists>ci.
             compileExpr (cs ! i) (hs ! i) (Expr (nontime_fields (Fields stmt) ! i)) =
               Inr (OutputEdges c' ! i, ci, hs ! Suc i)
             \<and> cs ! Suc i = ci\<lparr>OutputEdges := OutputEdges ci @ [OutputEdges c' ! i]\<rparr>"
    by (simp only: o0 oe list.size add_0)
  from L final have link: "linkAuxiliaryFields (cs ! ?n) (hs ! ?n) = Inr (c', h')" by simp
  from len first step' link
  show "\<exists>cs hs.
                length cs = Suc ?n
              \<and> length hs = Suc ?n
              \<and> cs ! 0 = ?c0
              \<and> hs ! 0 = empty_heap
              \<and> (\<forall>i<?n. \<exists>ci.
                    compileExpr (cs ! i) (hs ! i) (Expr (nontime_fields (Fields stmt) ! i)) =
                      Inr (OutputEdges c' ! i, ci, hs ! Suc i)
                    \<and> cs ! Suc i = ci\<lparr>OutputEdges := OutputEdges ci @ [OutputEdges c' ! i]\<rparr>)
              \<and> linkAuxiliaryFields (cs ! ?n) (hs ! ?n) = Inr (c', h')"
    by (intro exI[of _ cs] exI[of _ hs] conjI)
qed

text \<open>
  The theorem of C7 at \<open>SELECT time, x, max(y) FROM cpu\<close>: the output edges are the
  edge 0 of the raw field and the edge 3 of the call.
\<close>

theorem C7_Select_witness:
  "\<exists>c h. Compile (select_from_cpu [VarRef ''time'', VarRef ''x'', Call ''max'' [VarRef ''y'']]) = Inr (c, h)
     \<and> OutputEdges c = [0, 3]
     \<and> length (OutputEdges c) = 2
     \<and> Select c \<lparr>targets = []\<rparr> = (OutputEdges c, None, \<lparr>targets = OutputEdges c\<rparr>)"
proof -
  let ?s = "select_from_cpu [VarRef ''time'', VarRef ''x'', Call ''max'' [VarRef ''y'']]"
  have "\<exists>c h. Compile ?s = Inr (c, h) \<and> OutputEdges c = [0, 3]"
    by (simp add: model_defs)
  then obtain c h where C: "Compile ?s = Inr (c, h)" and O: "OutputEdges c = [0, 3]"
    by blast
  note T = C7_Select[where c = c and plan = "\<lparr>targets = []\<rparr>" and stmt = "?s" and c' = c and h' = h]
  note 1 = T[THEN conjunct1]
  note 2 = T[THEN conjunct2, THEN mp, OF C, THEN conjunct1]
  have "length (nontime_fields (Fields ?s)) = 2" by (simp add: shape_defs)
  with 2 have 3: "length (OutputEdges c) = 2" by simp
  from 1 have 4: "Select c \<lparr>targets = []\<rparr> = (OutputEdges c, None, \<lparr>targets = OutputEdges c\<rparr>)"
    by simp
  from C O 3 4 show ?thesis by blast
qed

subsection \<open>C8: the OnlySelectors flag\<close>

text \<open>
  Claim C8. \<open>OnlySelectors\<close> starts true. A call that the function compiler accepts
  leaves it true exactly when it was true and the name of the call is one of \<open>top\<close>,
  \<open>bottom\<close>, \<open>max\<close>, \<open>min\<close>, \<open>first\<close>, \<open>last\<close>, \<open>percentile\<close>, \<open>sample\<close>. Once false it
  stays false through the expression compiler and the field loop, and linking the
  auxiliary fields does not change it. After the field loop, and after a \<open>Compile\<close> that
  succeeds, it is true if and only if no compiled call was \<open>count\<close>, \<open>sum\<close> or \<open>mean\<close>.
\<close>

theorem C8_OnlySelectors:
  "OnlySelectors (newCompiler stmt)
   \<and> (compileFunction c h name args = Inr (out, c', h')
        \<longrightarrow> OnlySelectors c' = (OnlySelectors c \<and> is_selector name))
   \<and> (compileExpr c h e = Inr (out1, c1, h1) \<and> \<not> OnlySelectors c \<longrightarrow> \<not> OnlySelectors c1)
   \<and> (compileFields c h fs = Inr (c2, h2) \<and> \<not> OnlySelectors c \<longrightarrow> \<not> OnlySelectors c2)
   \<and> (linkAuxiliaryFields c h = Inr (c3, h3) \<longrightarrow> OnlySelectors c3 = OnlySelectors c)
   \<and> (compiled_fields stmt = Inr (c4, h4)
        \<longrightarrow> OnlySelectors c4 = (\<not> list_ex is_aggregate (field_calls (Fields stmt))))
   \<and> (Compile stmt = Inr (c5, h5)
        \<longrightarrow> OnlySelectors c5 = (\<not> list_ex is_aggregate (field_calls (Fields stmt))))"
proof (intro conjI impI)
  show "OnlySelectors (newCompiler stmt)" by (simp add: newCompiler_def)
next
  assume "compileFunction c h name args = Inr (out, c', h')"
  from compileFunction_Inr[OF this]
  show "OnlySelectors c' = (OnlySelectors c \<and> is_selector name)"
    by (auto simp: mark_function_OnlySelectors)
next
  assume "compileExpr c h e = Inr (out1, c1, h1) \<and> \<not> OnlySelectors c"
  then have a1: "compileExpr c h e = Inr (out1, c1, h1)" and a2: "\<not> OnlySelectors c"
    by simp_all
  from compileExpr_effect[OF a1] a2 show "\<not> OnlySelectors c1" by simp
next
  assume "compileFields c h fs = Inr (c2, h2) \<and> \<not> OnlySelectors c"
  then have a1: "compileFields c h fs = Inr (c2, h2)" and a2: "\<not> OnlySelectors c"
    by simp_all
  from compileFields_effect[OF a1] a2 show "\<not> OnlySelectors c2" by simp
next
  assume "linkAuxiliaryFields c h = Inr (c3, h3)"
  from linkAuxiliaryFields_Inr[OF this] show "OnlySelectors c3 = OnlySelectors c" by simp
next
  assume "compiled_fields stmt = Inr (c4, h4)"
  from compiled_fields_effect(5)[OF this]
  show "OnlySelectors c4 = (\<not> list_ex is_aggregate (field_calls (Fields stmt)))" .
next
  assume "Compile stmt = Inr (c5, h5)"
  then show "OnlySelectors c5 = (\<not> list_ex is_aggregate (field_calls (Fields stmt)))"
  proof (cases rule: Compile_cases)
    case (ok c h c1 h1)
    with compiled_fields_effect(5)[OF ok(1)] linkAuxiliaryFields_Inr[OF ok(2)] show ?thesis
      by simp
  qed simp_all
qed

text \<open>
  The theorem of C8 at \<open>sum(x)\<close> and \<open>max(x)\<close>, at \<open>max(x)\<close> and \<open>sum(x)\<close> compiled with
  the flag already false, and at \<open>SELECT sum(x) FROM cpu\<close>.
\<close>

theorem C8_OnlySelectors_witness:
  "(\<exists>out c h. compileFunction (newCompiler (select_from_cpu [])) empty_heap ''sum'' [VarRef ''x''] = Inr (out, c, h)
       \<and> \<not> OnlySelectors c)
   \<and> (\<exists>out c h. compileFunction (newCompiler (select_from_cpu [])) empty_heap ''max'' [VarRef ''x''] = Inr (out, c, h)
       \<and> OnlySelectors c)
   \<and> (\<exists>out c h. compileExpr ((newCompiler (select_from_cpu []))\<lparr>OnlySelectors := False\<rparr>) empty_heap
                    (Call ''max'' [VarRef ''x'']) = Inr (out, c, h) \<and> \<not> OnlySelectors c)
   \<and> (\<exists>c h. compileFields ((newCompiler (select_from_cpu []))\<lparr>OnlySelectors := False\<rparr>) empty_heap
                 [field_of (Call ''sum'' [VarRef ''x''])] = Inr (c, h) \<and> \<not> OnlySelectors c)
   \<and> (\<exists>c h. compiled_fields (select_from_cpu [Call ''sum'' [VarRef ''x'']]) = Inr (c, h) \<and> linkAuxiliaryFields c h = Inr (c, h)
         \<and> Compile (select_from_cpu [Call ''sum'' [VarRef ''x'']]) = Inr (c, h) \<and> \<not> OnlySelectors c)"
proof -
  let ?c0 = "newCompiler (select_from_cpu [])"
  let ?cF = "(newCompiler (select_from_cpu []))\<lparr>OnlySelectors := False\<rparr>"
  let ?s = "select_from_cpu [Call ''sum'' [VarRef ''x'']]"
  note T = C8_OnlySelectors
  obtain o1 c1 h1 where A: "compileFunction ?c0 empty_heap ''sum'' [VarRef ''x''] = Inr (o1, c1, h1)"
    by (simp add: model_defs)
  note a = T[THEN conjunct2, THEN conjunct1, THEN mp, OF A]
  have a': "\<not> OnlySelectors c1"
    using a by (simp add: is_selector_def)
  obtain o2 c2 h2 where B: "compileFunction ?c0 empty_heap ''max'' [VarRef ''x''] = Inr (o2, c2, h2)"
    by (simp add: model_defs)
  note b = T[THEN conjunct2, THEN conjunct1, THEN mp, OF B]
  have b': "OnlySelectors c2"
    using b by (simp add: is_selector_def newCompiler_def)
  obtain o3 c3 h3 where C: "compileExpr ?cF empty_heap (Call ''max'' [VarRef ''x'']) = Inr (o3, c3, h3)"
    by (simp add: model_defs)
  have nF: "\<not> OnlySelectors ?cF" by simp
  note c' = T[THEN conjunct2, THEN conjunct2, THEN conjunct1, THEN mp, OF conjI[OF C nF]]
  obtain c4 h4 where D: "compileFields ?cF empty_heap [field_of (Call ''sum'' [VarRef ''x''])] = Inr (c4, h4)"
    by (simp add: model_defs)
  note d' = T[THEN conjunct2, THEN conjunct2, THEN conjunct2, THEN conjunct1, THEN mp, OF conjI[OF D nF]]
  obtain c5 h5 where E: "compiled_fields ?s = Inr (c5, h5)"
    by (simp add: model_defs)
  then have L: "linkAuxiliaryFields c5 h5 = Inr (c5, h5)"
    by (auto simp: model_defs)
  note l' = T[THEN conjunct2, THEN conjunct2, THEN conjunct2, THEN conjunct2, THEN conjunct1, THEN mp, OF L]
  from E L have G: "Compile ?s = Inr (c5, h5)"
    by (auto simp: Compile_compiled_fields validateFields_def model_defs)
  note e' = T[where stmt = "?s", THEN conjunct2, THEN conjunct2, THEN conjunct2, THEN conjunct2,
      THEN conjunct2, THEN conjunct1, THEN mp, OF E]
  note g' = T[where stmt = "?s", THEN conjunct2, THEN conjunct2, THEN conjunct2, THEN conjunct2,
      THEN conjunct2, THEN conjunct2, THEN mp, OF G]
  have agg: "list_ex is_aggregate (field_calls (Fields ?s))" by (simp add: shape_defs)
  from e' g' agg have e'': "\<not> OnlySelectors c5" by simp
  from A a' have 1: "\<exists>out c h. compileFunction ?c0 empty_heap ''sum'' [VarRef ''x''] = Inr (out, c, h)
       \<and> \<not> OnlySelectors c" by blast
  from B b' have 2: "\<exists>out c h. compileFunction ?c0 empty_heap ''max'' [VarRef ''x''] = Inr (out, c, h)
       \<and> OnlySelectors c" by blast
  from C c' have 3: "\<exists>out c h. compileExpr ?cF empty_heap
                    (Call ''max'' [VarRef ''x'']) = Inr (out, c, h) \<and> \<not> OnlySelectors c" by blast
  from D d' have 4: "\<exists>c h. compileFields ?cF empty_heap
                 [field_of (Call ''sum'' [VarRef ''x''])] = Inr (c, h) \<and> \<not> OnlySelectors c" by blast
  from E L G e'' have 5: "\<exists>c h. compiled_fields ?s = Inr (c, h) \<and> linkAuxiliaryFields c h = Inr (c, h)
         \<and> Compile ?s = Inr (c, h) \<and> \<not> OnlySelectors c" by blast
  from 1 2 3 4 5 show ?thesis by (intro conjI)
qed

subsection \<open>C9: TopBottomFunction stays empty\<close>

text \<open>
  Claim C9. The expression compiler answers a call of \<open>top\<close> or \<open>bottom\<close> with
  "unimplemented" and never changes \<open>TopBottomFunction\<close>; so after the field loop of
  \<open>Compile\<close>, after linking and after a \<open>Compile\<close> that succeeds, \<open>TopBottomFunction\<close> is
  the empty string, \<open>validateFields\<close> returns no error, and \<open>Compile\<close> never returns the
  error "selector function NAME() cannot be combined with other functions".
\<close>

theorem C9_TopBottomFunction_unreachable:
  "compileExpr c h (Call ''top'' args) = Inl (Error ''unimplemented'')
   \<and> compileExpr c h (Call ''bottom'' args) = Inl (Error ''unimplemented'')
   \<and> (compileExpr c h e = Inr (out, c', h') \<longrightarrow> TopBottomFunction c' = TopBottomFunction c)
   \<and> (compiled_fields stmt = Inr (c1, h1) \<longrightarrow> TopBottomFunction c1 = [] \<and> validateFields c1 = None)
   \<and> (compiled_fields stmt = Inr (c1, h1) \<and> linkAuxiliaryFields c1 h1 = Inr (c2, h2)
        \<longrightarrow> TopBottomFunction c2 = [] \<and> validateFields c2 = None)
   \<and> (Compile stmt = Inr (c3, h3) \<longrightarrow> TopBottomFunction c3 = [])
   \<and> Compile stmt \<noteq>
        Inl (Error (''selector function '' @ name @ ''() cannot be combined with other functions''))"
proof (intro conjI impI)
  show "compileExpr c h (Call ''top'' args) = Inl (Error ''unimplemented'')" by simp
  show "compileExpr c h (Call ''bottom'' args) = Inl (Error ''unimplemented'')" by simp
next
  assume "compileExpr c h e = Inr (out, c', h')"
  from compileExpr_effect[OF this] show "TopBottomFunction c' = TopBottomFunction c" by simp
next
  assume a: "compiled_fields stmt = Inr (c1, h1)"
  from compiled_fields_effect(2)[OF a] show "TopBottomFunction c1 = []" .
  then show "validateFields c1 = None" by (rule validateFields_no_TopBottom)
next
  assume a: "compiled_fields stmt = Inr (c1, h1) \<and> linkAuxiliaryFields c1 h1 = Inr (c2, h2)"
  then have a1: "compiled_fields stmt = Inr (c1, h1)" and a2: "linkAuxiliaryFields c1 h1 = Inr (c2, h2)"
    by simp_all
  from compiled_fields_effect(2)[OF a1] linkAuxiliaryFields_Inr[OF a2]
  show t: "TopBottomFunction c2 = []" by simp
  then show "validateFields c2 = None" by (rule validateFields_no_TopBottom)
next
  assume a: "Compile stmt = Inr (c3, h3)"
  then show "TopBottomFunction c3 = []"
  proof (cases rule: Compile_cases)
    case (ok c h c1 h1)
    with compiled_fields_effect(2)[OF ok(1)] linkAuxiliaryFields_Inr[OF ok(2)] show ?thesis
      by simp
  qed simp_all
next
  show "Compile stmt \<noteq>
        Inl (Error (''selector function '' @ name @ ''() cannot be combined with other functions''))"
  proof
    assume "Compile stmt =
        Inl (Error (''selector function '' @ name @ ''() cannot be combined with other functions''))"
    then show False
    proof (cases rule: Compile_cases)
      case (fields e)
      then show ?thesis by (auto simp: field_error_def)
    next
      case (link c h e)
      with linkAuxiliaryFields_error[OF link(2)] show ?thesis by auto
    next
      case (ok c h c1 h1)
      then show ?thesis by simp
    qed
  qed
qed

text \<open>The theorem of C9 at \<open>SELECT max(y) FROM cpu\<close>.\<close>

theorem C9_TopBottomFunction_unreachable_witness:
  "\<exists>c h. Compile (select_from_cpu [Call ''max'' [VarRef ''y'']]) = Inr (c, h)
     \<and> compiled_fields (select_from_cpu [Call ''max'' [VarRef ''y'']]) = Inr (c, h)
     \<and> linkAuxiliaryFields c h = Inr (c, h)
     \<and> TopBottomFunction c = [] \<and> validateFields c = None"
proof -
  let ?s = "select_from_cpu [Call ''max'' [VarRef ''y'']]"
  obtain c h where F: "compiled_fields ?s = Inr (c, h)"
    by (simp add: model_defs)
  then have L: "linkAuxiliaryFields c h = Inr (c, h)"
    by (auto simp: model_defs)
  from F L have C: "Compile ?s = Inr (c, h)"
    by (auto simp: Compile_compiled_fields validateFields_def model_defs)
  obtain out c' h' where E: "compileExpr (newCompiler (select_from_cpu [])) empty_heap (VarRef ''x'') = Inr (out, c', h')"
    by (simp add: model_defs)
  note T = C9_TopBottomFunction_unreachable[where stmt = "?s" and ?c1.0 = c and ?h1.0 = h
      and ?c2.0 = c and ?h2.0 = h and ?c3.0 = c and ?h3.0 = h
      and c = "newCompiler (select_from_cpu [])" and h = empty_heap and e = "VarRef ''x''" and out = out and c' = c' and h' = h']
  note t3 = T[THEN conjunct2, THEN conjunct2, THEN conjunct1, THEN mp, OF E]
  note t4 = T[THEN conjunct2, THEN conjunct2, THEN conjunct2, THEN conjunct1, THEN mp, OF F]
  note t5 = T[THEN conjunct2, THEN conjunct2, THEN conjunct2, THEN conjunct2, THEN conjunct1, THEN mp,
      OF conjI[OF F L]]
  note t6 = T[THEN conjunct2, THEN conjunct2, THEN conjunct2, THEN conjunct2, THEN conjunct2,
      THEN conjunct1, THEN mp, OF C]
  from C F L t4 t5 t6 show ?thesis by blast
qed

end
